theory Spec2Isabelle
  imports Main "HOL-Library.AList" "HOL-Library.Word"
begin

section \<open>The Python values the exporter handles\<close>

text \<open>
  The exporter \<^verbatim>\<open>excel_to_unity.py\<close> reads cell values from a workbook and never looks
  at anything but \<^verbatim>\<open>None\<close>, \<^verbatim>\<open>bool\<close>, \<^verbatim>\<open>int\<close>, \<^verbatim>\<open>float\<close> and \<^verbatim>\<open>str\<close> values: every
  other cell object is only ever used through \<^verbatim>\<open>str()\<close> and stands here as the string
  that \<^verbatim>\<open>str()\<close> gives. Strings are lists of 8-bit characters and the character classes
  are those of ASCII: a character above 127 is neither white space, nor a digit, nor
  alphanumeric. Integers are unbounded, as in Python, and \<^verbatim>\<open>int(s)\<close> takes a text of any
  length.

  A float is held as an exact decimal \<open>(-1)\<^sup>s \<sqdot> m \<sqdot> 10\<^sup>e\<close>, an infinity or a NaN. Rounding
  to binary64 is not part of the model; the overflow threshold of binary64 is, because
  \<^verbatim>\<open>float(n)\<close> raises \<^verbatim>\<open>OverflowError\<close> beyond it.
\<close>

datatype pyfloat = Finite bool nat int | Infinite bool | NaN

datatype pyval = PNone | PBool bool | PInt int | PFloat pyfloat | PStr string

datatype py_error = ValueError | TypeError | OverflowError

text \<open>\<^verbatim>\<open>isinstance\<close>: in Python \<^verbatim>\<open>bool\<close> is a subclass of \<^verbatim>\<open>int\<close>.\<close>

fun isinstance_bool :: "pyval \<Rightarrow> bool" where
  "isinstance_bool (PBool b) = True"
| "isinstance_bool v = False"

fun isinstance_int :: "pyval \<Rightarrow> bool" where
  "isinstance_int (PBool b) = True"
| "isinstance_int (PInt i) = True"
| "isinstance_int v = False"

fun isinstance_float :: "pyval \<Rightarrow> bool" where
  "isinstance_float (PFloat x) = True"
| "isinstance_float v = False"

subsection \<open>Characters and strings\<close>

definition whitespace_chars :: "char list" where
  "whitespace_chars =
     [CHR 0x09, CHR 0x0A, CHR 0x0B, CHR 0x0C, CHR 0x0D,
      CHR 0x1C, CHR 0x1D, CHR 0x1E, CHR 0x1F, CHR 0x20]"

definition is_space :: "char \<Rightarrow> bool" where
  "is_space c = (c \<in> set whitespace_chars)"

definition digit_chars :: "char list" where
  "digit_chars = ''0123456789''"

definition upper_chars :: "char list" where
  "upper_chars = ''ABCDEFGHIJKLMNOPQRSTUVWXYZ''"

definition lower_chars :: "char list" where
  "lower_chars = ''abcdefghijklmnopqrstuvwxyz''"

definition is_digit :: "char \<Rightarrow> bool" where
  "is_digit c = (c \<in> set digit_chars)"

definition digit_val :: "char \<Rightarrow> nat" where
  "digit_val c = (case map_of (zip digit_chars [0 ..< 10]) c of Some d \<Rightarrow> d | None \<Rightarrow> 0)"

definition digit_char :: "nat \<Rightarrow> char" where
  "digit_char d = (case map_of (zip [0 ..< 10] digit_chars) d of Some c \<Rightarrow> c | None \<Rightarrow> CHR ''0'')"

definition is_alnum :: "char \<Rightarrow> bool" where
  "is_alnum c = (c \<in> set digit_chars \<or> c \<in> set upper_chars \<or> c \<in> set lower_chars)"

definition lower_char :: "char \<Rightarrow> char" where
  "lower_char c = (case map_of (zip upper_chars lower_chars) c of Some d \<Rightarrow> d | None \<Rightarrow> c)"

definition upper_char :: "char \<Rightarrow> char" where
  "upper_char c = (case map_of (zip lower_chars upper_chars) c of Some d \<Rightarrow> d | None \<Rightarrow> c)"

text \<open>\<^verbatim>\<open>s.strip()\<close>, \<^verbatim>\<open>s.lower()\<close>, \<^verbatim>\<open>s.capitalize()\<close>, \<^verbatim>\<open>sub in s\<close>.\<close>

definition strip :: "string \<Rightarrow> string" where
  "strip s = rev (dropWhile is_space (rev (dropWhile is_space s)))"

definition lower :: "string \<Rightarrow> string" where
  "lower s = map lower_char s"

definition capitalize :: "string \<Rightarrow> string" where
  "capitalize s = (case s of [] \<Rightarrow> [] | c # cs \<Rightarrow> upper_char c # map lower_char cs)"

fun contains :: "string \<Rightarrow> string \<Rightarrow> bool" where
  "contains sub [] = (sub = [])"
| "contains sub (c # cs) = (take (length sub) (c # cs) = sub \<or> contains sub cs)"

subsection \<open>Numbers and their texts\<close>

function show_nat :: "nat \<Rightarrow> string" where
  "show_nat n = (if n < 10 then [digit_char n] else show_nat (n div 10) @ [digit_char (n mod 10)])"
  by pat_completeness auto
termination
  by (relation "measure id") auto

declare show_nat.simps [simp del]

definition show_int :: "int \<Rightarrow> string" where
  "show_int i = (if i < 0 then CHR ''-'' # show_nat (nat (- i)) else show_nat (nat i))"

text \<open>
  A digit part of a Python numeric literal: one or more digits, single underscores
  allowed between two digits. The result is the digits without the underscores.
\<close>

fun more_digits :: "string \<Rightarrow> string option" where
  "more_digits [] = Some []"
| "more_digits (c # cs) =
     (if is_digit c then map_option ((#) c) (more_digits cs)
      else if c = CHR ''_'' then
        (case cs of
           [] \<Rightarrow> None
         | d # ds \<Rightarrow> if is_digit d then map_option ((#) d) (more_digits ds) else None)
      else None)"

definition digitpart :: "string \<Rightarrow> string option" where
  "digitpart s =
     (case s of
        [] \<Rightarrow> None
      | c # cs \<Rightarrow> if is_digit c then map_option ((#) c) (more_digits cs) else None)"

definition nat_of_digits :: "string \<Rightarrow> nat" where
  "nat_of_digits ds = foldl (\<lambda>acc c. 10 * acc + digit_val c) 0 ds"

definition split_sign :: "string \<Rightarrow> bool \<times> string" where
  "split_sign s =
     (case s of
        [] \<Rightarrow> (False, [])
      | c # cs \<Rightarrow> if c = CHR ''-'' then (True, cs) else if c = CHR ''+'' then (False, cs) else (False, s))"

text \<open>\<^verbatim>\<open>int(s)\<close> for a string: \<open>None\<close> stands for the \<^verbatim>\<open>ValueError\<close>.\<close>

definition py_int_of_str :: "string \<Rightarrow> int option" where
  "py_int_of_str s =
     (let (neg, body) = split_sign (strip s) in
      case digitpart body of
        None \<Rightarrow> None
      | Some ds \<Rightarrow> Some (if neg then - int (nat_of_digits ds) else int (nat_of_digits ds)))"

text \<open>
  The largest magnitude \<^verbatim>\<open>float\<close> can hold: a number at or beyond
  \<open>2\<^sup>1\<^sup>0\<^sup>2\<^sup>4 - 2\<^sup>9\<^sup>7\<^sup>0\<close> rounds to \<open>2\<^sup>1\<^sup>0\<^sup>2\<^sup>4\<close>, which binary64 does not have.
\<close>

definition float_overflow_bound :: "int" where
  "float_overflow_bound = 2 ^ 1024 - 2 ^ 970"

definition decimal_overflows :: "nat \<Rightarrow> int \<Rightarrow> bool" where
  "decimal_overflows m e =
     (if 0 \<le> e then float_overflow_bound \<le> int m * 10 ^ nat e
      else float_overflow_bound * 10 ^ nat (- e) \<le> int m)"

definition mk_float :: "bool \<Rightarrow> nat \<Rightarrow> int \<Rightarrow> pyfloat" where
  "mk_float neg m e = (if decimal_overflows m e then Infinite neg else Finite neg m e)"

text \<open>\<^verbatim>\<open>float(n)\<close> for an integer: \<open>None\<close> stands for the \<^verbatim>\<open>OverflowError\<close>.\<close>

definition float_of_int :: "int \<Rightarrow> pyfloat option" where
  "float_of_int n =
     (if float_overflow_bound \<le> \<bar>n\<bar> then None else Some (Finite (n < 0) (nat \<bar>n\<bar>) 0))"

text \<open>
  \<^verbatim>\<open>float(s)\<close> for a string: \<open>None\<close> stands for the \<^verbatim>\<open>ValueError\<close>. The literal is
  stripped, may carry a sign, and is \<^verbatim>\<open>inf\<close>, \<^verbatim>\<open>infinity\<close> or \<^verbatim>\<open>nan\<close> in any case, or a
  decimal number: digits, a point and digits (one side of the point may be empty), and an
  optional exponent.
\<close>

definition is_exp_char :: "char \<Rightarrow> bool" where
  "is_exp_char c = (c = CHR ''e'' \<or> c = CHR ''E'')"

definition parse_exponent :: "string \<Rightarrow> int option" where
  "parse_exponent s =
     (case s of
        [] \<Rightarrow> Some 0
      | c # cs \<Rightarrow>
          (let (neg, body) = split_sign cs in
           case digitpart body of
             None \<Rightarrow> None
           | Some ds \<Rightarrow> Some (if neg then - int (nat_of_digits ds) else int (nat_of_digits ds))))"

definition parse_mantissa :: "string \<Rightarrow> (string \<times> string) option" where
  "parse_mantissa s =
     (let ip = takeWhile (\<lambda>c. c \<noteq> CHR ''.'') s; rest = dropWhile (\<lambda>c. c \<noteq> CHR ''.'') s in
      case rest of
        [] \<Rightarrow> map_option (\<lambda>ds. (ds, [])) (digitpart ip)
      | dot # fp \<Rightarrow>
          if ip = [] then map_option (\<lambda>fs. ([], fs)) (digitpart fp)
          else if fp = [] then map_option (\<lambda>ds. (ds, [])) (digitpart ip)
          else (case (digitpart ip, digitpart fp) of
                  (Some ds, Some fs) \<Rightarrow> Some (ds, fs)
                | _ \<Rightarrow> None))"

definition py_float_of_str :: "string \<Rightarrow> pyfloat option" where
  "py_float_of_str s =
     (let (neg, body) = split_sign (strip s) in
      if lower body \<in> set [''inf'', ''infinity''] then Some (Infinite neg)
      else if lower body = ''nan'' then Some NaN
      else
        (let m = takeWhile (\<lambda>c. \<not> is_exp_char c) body;
             x = dropWhile (\<lambda>c. \<not> is_exp_char c) body in
         case (parse_mantissa m, parse_exponent x) of
           (Some (ds, fs), Some ex) \<Rightarrow>
             Some (mk_float neg (nat_of_digits (ds @ fs)) (ex - int (length fs)))
         | _ \<Rightarrow> None))"

text \<open>
  \<^verbatim>\<open>int(x)\<close> for a float truncates towards zero; it raises \<^verbatim>\<open>OverflowError\<close> on an
  infinity and \<^verbatim>\<open>ValueError\<close> on a NaN.
\<close>

fun int_of_float :: "pyfloat \<Rightarrow> py_error + int" where
  "int_of_float (Finite neg m e) =
     (let mag = (if 0 \<le> e then int m * 10 ^ nat e else int m div 10 ^ nat (- e))
      in Inr (if neg then - mag else mag))"
| "int_of_float (Infinite neg) = Inl OverflowError"
| "int_of_float NaN = Inl ValueError"

text \<open>
  \<^verbatim>\<open>repr(x)\<close> of a float: the significant digits in fixed notation when the decimal point
  falls within them or close by, in exponent notation otherwise.
\<close>

definition float_digits :: "nat \<Rightarrow> int \<Rightarrow> string \<times> int" where
  "float_digits m e =
     (let ds = show_nat m;
          k = length (takeWhile (\<lambda>c. c = CHR ''0'') (rev ds));
          sig = take (length ds - k) ds
      in (sig, int (length ds) + e))"

definition float_repr_finite :: "nat \<Rightarrow> int \<Rightarrow> string" where
  "float_repr_finite m e =
     (if m = 0 then ''0.0''
      else
        (let (sig, decpt) = float_digits m e; n = int (length sig) in
         if decpt \<le> - 4 \<or> 16 < decpt then
           (let ex = decpt - 1;
                exs = show_nat (nat \<bar>ex\<bar>);
                exs2 = (if length exs < 2 then CHR ''0'' # exs else exs)
            in take 1 sig @ (if 1 < n then CHR ''.'' # drop 1 sig else [])
               @ ''e'' @ (if ex < 0 then ''-'' else ''+'') @ exs2)
         else if decpt \<le> 0 then ''0.'' @ replicate (nat (- decpt)) (CHR ''0'') @ sig
         else if decpt < n then take (nat decpt) sig @ CHR ''.'' # drop (nat decpt) sig
         else sig @ replicate (nat (decpt - n)) (CHR ''0'') @ ''.0''))"

fun float_repr :: "pyfloat \<Rightarrow> string" where
  "float_repr (Finite neg m e) = (if neg then ''-'' else []) @ float_repr_finite m e"
| "float_repr (Infinite neg) = (if neg then ''-inf'' else ''inf'')"
| "float_repr NaN = ''nan''"

text \<open>\<^verbatim>\<open>str(v)\<close>.\<close>

fun py_str :: "pyval \<Rightarrow> string" where
  "py_str PNone = ''None''"
| "py_str (PBool b) = (if b then ''True'' else ''False'')"
| "py_str (PInt i) = show_int i"
| "py_str (PFloat x) = float_repr x"
| "py_str (PStr s) = s"

text \<open>Truth value of a cell value, as \<^verbatim>\<open>if v\<close> tests it.\<close>

fun truthy :: "pyval \<Rightarrow> bool" where
  "truthy PNone = False"
| "truthy (PBool b) = b"
| "truthy (PInt i) = (i \<noteq> 0)"
| "truthy (PFloat (Finite neg m e)) = (m \<noteq> 0)"
| "truthy (PFloat x) = True"
| "truthy (PStr s) = (s \<noteq> [])"

section \<open>Type inference for one value\<close>

datatype cstype = TString | TBool | TInt | TFloat

fun type_name :: "cstype \<Rightarrow> string" where
  "type_name TString = ''string''"
| "type_name TBool = ''bool''"
| "type_name TInt = ''int''"
| "type_name TFloat = ''float''"

definition to_csharp_type :: "string \<Rightarrow> pyval \<Rightarrow> cstype" where
  "to_csharp_type excel_type v =
     (if v = PNone then TString
      else if isinstance_bool v then TBool
      else if isinstance_int v then TInt
      else if isinstance_float v then TFloat
      else
        (let value_str = strip (py_str v) in
         if value_str = [] then TString
         else if lower value_str \<in> set [''true'', ''false''] then TBool
         else if py_int_of_str value_str \<noteq> None then TInt
         else if py_float_of_str value_str \<noteq> None then TFloat
         else TString))"


text \<open>
  The rule order of the specification, written as a table of rules tried from the top:
  the first rule whose test holds gives the type, and text is the fallback.
\<close>

definition text_of :: "pyval \<Rightarrow> string" where
  "text_of v = strip (py_str v)"

definition type_rules :: "((pyval \<Rightarrow> bool) \<times> cstype) list" where
  "type_rules =
     [(isinstance_bool, TBool),
      (isinstance_int, TInt),
      (isinstance_float, TFloat),
      (\<lambda>v. lower (text_of v) = ''true'' \<or> lower (text_of v) = ''false'', TBool),
      (\<lambda>v. py_int_of_str (text_of v) \<noteq> None, TInt),
      (\<lambda>v. py_float_of_str (text_of v) \<noteq> None, TFloat)]"

fun first_match :: "((pyval \<Rightarrow> bool) \<times> cstype) list \<Rightarrow> pyval \<Rightarrow> cstype" where
  "first_match [] v = TString"
| "first_match ((test, t) # rules) v = (if test v then t else first_match rules v)"

section \<open>Reading a workbook\<close>

text \<open>
  A worksheet as \<^verbatim>\<open>parse_excel_file\<close> reads it through openpyxl: a title and a grid of cell
  values, rows and columns counted from 1. A cell outside the stored grid reads as
  \<^verbatim>\<open>None\<close>; \<^verbatim>\<open>max_row\<close> and \<^verbatim>\<open>max_column\<close> are 1 on an empty sheet.
\<close>

record worksheet =
  title :: string
  grid :: "pyval list list"

definition max_row :: "worksheet \<Rightarrow> nat" where
  "max_row ws = max 1 (length (grid ws))"

definition max_column :: "worksheet \<Rightarrow> nat" where
  "max_column ws = foldr (\<lambda>r n. max (length r) n) (grid ws) 1"

definition cell_value :: "worksheet \<Rightarrow> nat \<Rightarrow> nat \<Rightarrow> pyval" where
  "cell_value ws r c =
     (if 1 \<le> r \<and> r \<le> length (grid ws) \<and> 1 \<le> c \<and> c \<le> length (grid ws ! (r - 1))
      then grid ws ! (r - 1) ! (c - 1) else PNone)"

type_synonym row = "(string \<times> pyval) list"

record table_info =
  headers :: "string list"
  data :: "row list"

text \<open>Line 92: the header of a column, a placeholder when the header cell is empty.\<close>

definition header_of :: "nat \<Rightarrow> pyval \<Rightarrow> string" where
  "header_of col v = (if truthy v then strip (py_str v) else ''Column'' @ show_nat col)"

definition read_headers :: "worksheet \<Rightarrow> string list" where
  "read_headers ws = map (\<lambda>c. header_of c (cell_value ws 1 c)) [1 ..< Suc (max_column ws)]"

text \<open>Lines 104 to 111: the value kept for a data cell.\<close>

definition read_cell :: "pyval \<Rightarrow> pyval" where
  "read_cell v =
     (if v = PNone then PNone
      else if isinstance_int v \<or> isinstance_float v then v
      else if isinstance_bool v then v
      else PStr (strip (py_str v)))"

text \<open>
  A row is a Python dictionary, which keeps its keys in the order of their first
  insertion: an association list updated in place.
\<close>

definition read_row :: "worksheet \<Rightarrow> string list \<Rightarrow> nat \<Rightarrow> row" where
  "read_row ws hs row_idx =
     fold (\<lambda>(col_idx, header) row_data.
              AList.update header (read_cell (cell_value ws row_idx col_idx)) row_data)
          (zip [1 ..< Suc (length hs)] hs) []"

text \<open>Line 114: a row is kept when some value is neither \<^verbatim>\<open>None\<close> nor blank.\<close>

definition row_nonblank :: "row \<Rightarrow> bool" where
  "row_nonblank row_data = list_ex (\<lambda>(k, v). v \<noteq> PNone \<and> strip (py_str v) \<noteq> []) row_data"

definition read_data_rows :: "worksheet \<Rightarrow> row list" where
  "read_data_rows ws =
     filter row_nonblank (map (read_row ws (read_headers ws)) [2 ..< Suc (max_row ws)])"

text \<open>One turn of the loop over the sheets: \<open>None\<close> when the sheet gives no table.\<close>

definition parse_sheet :: "worksheet \<Rightarrow> table_info option" where
  "parse_sheet ws =
     (if max_row ws < 2 then None
      else
        (let data_rows = read_data_rows ws in
         if data_rows \<noteq> [] then Some \<lparr>headers = read_headers ws, data = data_rows\<rparr>
         else None))"

text \<open>
  Lines 82 to 121, the effect of one turn of the loop over the sheets on \<^verbatim>\<open>result\<close>.
\<close>

definition add_sheet ::
  "worksheet \<Rightarrow> (string \<times> table_info) list \<Rightarrow> (string \<times> table_info) list" where
  "add_sheet ws result =
     (case parse_sheet ws of
        None \<Rightarrow> result
      | Some t \<Rightarrow> AList.update (title ws) t result)"

text \<open>
  \<^verbatim>\<open>parse_excel_file\<close>: the workbook is \<open>None\<close> when it cannot be loaded. The result is the
  dictionary from sheet name to table, or \<open>None\<close>.
\<close>

definition parse_excel_file :: "worksheet list option \<Rightarrow> (string \<times> table_info) list option" where
  "parse_excel_file file =
     (case file of
        None \<Rightarrow> None
      | Some wb \<Rightarrow>
          (let result = fold add_sheet wb []
           in if result \<noteq> [] then Some result else None))"

section \<open>Names\<close>

fun split_words :: "string \<Rightarrow> string \<Rightarrow> string list" where
  "split_words [] current = (if current \<noteq> [] then [current] else [])"
| "split_words (c # cs) current =
     (if is_alnum c then split_words cs (current @ [c])
      else if current \<noteq> [] then current # split_words cs []
      else split_words cs [])"

definition to_pascal_case :: "string \<Rightarrow> string" where
  "to_pascal_case name =
     (let parts = split_words name [];
          parts = (if parts = [] then [name] else parts)
      in concat (map capitalize parts))"

definition to_camel_case :: "string \<Rightarrow> string" where
  "to_camel_case name =
     (let pascal = to_pascal_case name in
      case pascal of [] \<Rightarrow> pascal | c # cs \<Rightarrow> lower_char c # cs)"

text \<open>Line 500: the name of a table, from the file stem and the sheet name.\<close>

definition table_key :: "string \<Rightarrow> (string \<times> table_info) list \<Rightarrow> string \<Rightarrow> string" where
  "table_key stem tables sheet_name =
     (if 1 < length tables then stem @ ''_'' @ sheet_name else stem)"

section \<open>Column types\<close>

text \<open>\<^verbatim>\<open>row.get(header)\<close>.\<close>

definition row_get :: "row \<Rightarrow> string \<Rightarrow> pyval" where
  "row_get r header = (case map_of r header of None \<Rightarrow> PNone | Some v \<Rightarrow> v)"

text \<open>
  Lines 523 to 532 (and 142 to 151): an integer column becomes a float column when some
  value of the column parses as a float and has a point in its text.
\<close>

fun check_float :: "string \<Rightarrow> row list \<Rightarrow> cstype" where
  "check_float header [] = TInt"
| "check_float header (check_row # rest) =
     (let check_value = row_get check_row header in
      if check_value \<noteq> PNone \<and> py_float_of_str (py_str check_value) \<noteq> None
         \<and> contains ''.'' (py_str check_value)
      then TFloat
      else check_float header rest)"

text \<open>
  Lines 516 to 533 (and 134 to 152): the type of a column comes from its first value
  that is neither \<^verbatim>\<open>None\<close> nor blank.
\<close>

fun infer_from :: "string \<Rightarrow> row list \<Rightarrow> row list \<Rightarrow> cstype" where
  "infer_from header all_rows [] = TString"
| "infer_from header all_rows (r # rest) =
     (let v = row_get r header in
      if v \<noteq> PNone \<and> strip (py_str v) \<noteq> [] then
        (let inferred_type = to_csharp_type header v in
         if inferred_type = TInt then check_float header all_rows else inferred_type)
      else infer_from header all_rows rest)"

definition infer_type :: "string \<Rightarrow> row list \<Rightarrow> cstype" where
  "infer_type header rows = infer_from header rows rows"

definition field_types_map :: "string list \<Rightarrow> row list \<Rightarrow> (string \<times> cstype) list" where
  "field_types_map hs rows =
     fold (\<lambda>header m. AList.update header (infer_type header rows) m) hs []"

text \<open>\<^verbatim>\<open>field_types_map.get(header, "string")\<close>.\<close>

definition get_type :: "(string \<times> cstype) list \<Rightarrow> string \<Rightarrow> cstype" where
  "get_type m header = (case map_of m header of None \<Rightarrow> TString | Some t \<Rightarrow> t)"

section \<open>Converting the rows\<close>

datatype json = JInt int | JFloat pyfloat | JBool bool | JStr string

text \<open>\<^verbatim>\<open>int(value)\<close> and \<^verbatim>\<open>float(value)\<close> on a cell value.\<close>

fun py_int :: "pyval \<Rightarrow> py_error + int" where
  "py_int PNone = Inl TypeError"
| "py_int (PBool b) = Inr (if b then 1 else 0)"
| "py_int (PInt i) = Inr i"
| "py_int (PFloat x) = int_of_float x"
| "py_int (PStr s) = (case py_int_of_str s of None \<Rightarrow> Inl ValueError | Some i \<Rightarrow> Inr i)"

fun py_float :: "pyval \<Rightarrow> py_error + pyfloat" where
  "py_float PNone = Inl TypeError"
| "py_float (PBool b) = Inr (Finite False (if b then 1 else 0) 0)"
| "py_float (PInt i) = (case float_of_int i of None \<Rightarrow> Inl OverflowError | Some x \<Rightarrow> Inr x)"
| "py_float (PFloat x) = Inr x"
| "py_float (PStr s) = (case py_float_of_str s of None \<Rightarrow> Inl ValueError | Some x \<Rightarrow> Inr x)"

text \<open>
  Lines 544 to 573: the value written for one cell of a column of the given type. The two
  \<^verbatim>\<open>try\<close> blocks catch \<^verbatim>\<open>ValueError\<close> and \<^verbatim>\<open>TypeError\<close>; any other error leaves the
  function, and the program.
\<close>

definition convert_value :: "cstype \<Rightarrow> pyval \<Rightarrow> py_error + json" where
  "convert_value csharp_type v =
     (if v = PNone then
        (if csharp_type = TInt then Inr (JInt 0)
         else if csharp_type = TFloat then Inr (JFloat (Finite False 0 0))
         else if csharp_type = TBool then Inr (JBool False)
         else Inr (JStr []))
      else if csharp_type = TInt then
        (case py_int v of
           Inr i \<Rightarrow> Inr (JInt i)
         | Inl e \<Rightarrow> if e = ValueError \<or> e = TypeError then Inr (JInt 0) else Inl e)
      else if csharp_type = TFloat then
        (case py_float v of
           Inr x \<Rightarrow> Inr (JFloat x)
         | Inl e \<Rightarrow> if e = ValueError \<or> e = TypeError then Inr (JFloat (Finite False 0 0)) else Inl e)
      else if csharp_type = TBool then
        (case v of
           PBool b \<Rightarrow> Inr (JBool b)
         | _ \<Rightarrow> Inr (JBool (lower (py_str v) \<in> set [''true'', ''1'', ''yes''])))
      else Inr (JStr (if v \<noteq> PNone then py_str v else [])))"

type_synonym json_row = "(string \<times> json) list"

text \<open>Lines 537 to 573: the loop over the items of one row, filling \<^verbatim>\<open>converted_row\<close>.\<close>

fun convert_items :: "(string \<times> cstype) list \<Rightarrow> row \<Rightarrow> json_row \<Rightarrow> py_error + json_row" where
  "convert_items ftm [] converted_row = Inr converted_row"
| "convert_items ftm ((header, v) # rest) converted_row =
     (case convert_value (get_type ftm header) v of
        Inl e \<Rightarrow> Inl e
      | Inr j \<Rightarrow> convert_items ftm rest (AList.update (to_pascal_case header) j converted_row))"

text \<open>Lines 536 to 574: the loop over the rows, giving \<^verbatim>\<open>converted_data\<close>.\<close>

fun convert_rows :: "(string \<times> cstype) list \<Rightarrow> row list \<Rightarrow> py_error + json_row list" where
  "convert_rows ftm [] = Inr []"
| "convert_rows ftm (r # rest) =
     (case convert_items ftm r [] of
        Inl e \<Rightarrow> Inl e
      | Inr converted_row \<Rightarrow>
          (case convert_rows ftm rest of
             Inl e \<Rightarrow> Inl e
           | Inr converted_data \<Rightarrow> Inr (converted_row # converted_data)))"

definition convert_table :: "table_info \<Rightarrow> py_error + json_row list" where
  "convert_table t = convert_rows (field_types_map (headers t) (data t)) (data t)"

subsection \<open>The text of the document\<close>

text \<open>
  \<^verbatim>\<open>json.dumps({"items": converted_data}, ensure_ascii=False, indent=2)\<close>: numbers by their
  \<^verbatim>\<open>repr\<close>, strings quoted with the control characters, the quote and the backslash
  escaped.
\<close>

definition hex_digit :: "nat \<Rightarrow> char" where
  "hex_digit d = (case map_of (zip [0 ..< 16] ''0123456789abcdef'') d of Some c \<Rightarrow> c | None \<Rightarrow> CHR ''0'')"

definition escape_char :: "char \<Rightarrow> string" where
  "escape_char c =
     (if c = CHR 0x22 then [CHR 0x5C, CHR 0x22]
      else if c = CHR 0x5C then [CHR 0x5C, CHR 0x5C]
      else if c = CHR 0x0A then [CHR 0x5C, CHR ''n'']
      else if c = CHR 0x0D then [CHR 0x5C, CHR ''r'']
      else if c = CHR 0x09 then [CHR 0x5C, CHR ''t'']
      else if c = CHR 0x08 then [CHR 0x5C, CHR ''b'']
      else if c = CHR 0x0C then [CHR 0x5C, CHR ''f'']
      else if (of_char c :: nat) < 32 then
        [CHR 0x5C, CHR ''u'', CHR ''0'', CHR ''0'',
         hex_digit ((of_char c :: nat) div 16), hex_digit ((of_char c :: nat) mod 16)]
      else [c])"

definition json_string :: "string \<Rightarrow> string" where
  "json_string s = CHR 0x22 # concat (map escape_char s) @ [CHR 0x22]"

fun json_text :: "json \<Rightarrow> string" where
  "json_text (JInt i) = show_int i"
| "json_text (JFloat (Finite neg m e)) = float_repr (Finite neg m e)"
| "json_text (JFloat (Infinite neg)) = (if neg then ''-Infinity'' else ''Infinity'')"
| "json_text (JFloat NaN) = ''NaN''"
| "json_text (JBool b) = (if b then ''true'' else ''false'')"
| "json_text (JStr s) = json_string s"

fun join :: "string \<Rightarrow> string list \<Rightarrow> string" where
  "join sep [] = []"
| "join sep [x] = x"
| "join sep (x # y # ys) = x @ sep @ join sep (y # ys)"

definition dumps_row :: "json_row \<Rightarrow> string" where
  "dumps_row r =
     (if r = [] then ''{}''
      else ''{'' @ [CHR 0x0A]
           @ join ('','' @ [CHR 0x0A])
               (map (\<lambda>(k, v). replicate 6 (CHR '' '') @ json_string k @ '': '' @ json_text v) r)
           @ [CHR 0x0A] @ replicate 4 (CHR '' '') @ ''}'')"

definition json_dumps :: "json_row list \<Rightarrow> string" where
  "json_dumps items =
     ''{'' @ [CHR 0x0A] @ ''  '' @ json_string ''items'' @ '': ''
     @ (if items = [] then ''[]''
        else ''['' @ [CHR 0x0A]
             @ join ('','' @ [CHR 0x0A]) (map (\<lambda>r. replicate 4 (CHR '' '') @ dumps_row r) items)
             @ [CHR 0x0A] @ ''  ]'')
     @ [CHR 0x0A] @ ''}''"

section \<open>The generated record type\<close>

text \<open>
  \<^verbatim>\<open>generate_csharp_class\<close> infers the column types with the same loop as \<^verbatim>\<open>main\<close> and
  declares one public field for each header: its C\# type and its name.
\<close>

definition csharp_fields :: "string list \<Rightarrow> row list \<Rightarrow> (string \<times> string) list" where
  "csharp_fields hs data_rows =
     map (\<lambda>header. (type_name (infer_type header data_rows), to_pascal_case header)) hs"

section \<open>The export of one workbook\<close>

text \<open>
  What \<^verbatim>\<open>main\<close> writes for one workbook: for each table its name, the text of its
  document and the fields of its record type. An error that \<^verbatim>\<open>main\<close> does not catch ends
  the run.
\<close>

record table_output =
  out_key :: string
  out_json :: string
  out_fields :: "(string \<times> string) list"

fun export_tables ::
  "string \<Rightarrow> (string \<times> table_info) list \<Rightarrow> (string \<times> table_info) list \<Rightarrow> py_error + table_output list"
where
  "export_tables stem tables [] = Inr []"
| "export_tables stem tables ((sheet_name, t) # rest) =
     (case convert_table t of
        Inl e \<Rightarrow> Inl e
      | Inr converted_data \<Rightarrow>
          (case export_tables stem tables rest of
             Inl e \<Rightarrow> Inl e
           | Inr outs \<Rightarrow>
               Inr (\<lparr>out_key = table_key stem tables sheet_name,
                     out_json = json_dumps converted_data,
                     out_fields = csharp_fields (headers t) (data t)\<rparr> # outs)))"

definition export_file :: "string \<Rightarrow> worksheet list option \<Rightarrow> py_error + table_output list" where
  "export_file stem file =
     (case parse_excel_file file of
        None \<Rightarrow> Inr []
      | Some tables \<Rightarrow> export_tables stem tables tables)"

section \<open>The generated manager\<close>

text \<open>
  The C\# code that \<^verbatim>\<open>generate_data_manager_code\<close> writes. An object of a record type is
  the list of its public fields in the order of their declaration. \<^verbatim>\<open>GetIdValue\<close> looks at
  a field value in two ways only: whether it is an \<^verbatim>\<open>int\<close>, and what \<^verbatim>\<open>int.TryParse\<close>
  makes of its \<^verbatim>\<open>ToString()\<close>. A value that is not an \<^verbatim>\<open>int\<close> stands here as its
  \<^verbatim>\<open>ToString()\<close>, and \<^verbatim>\<open>int.TryParse\<close> is a parameter.
\<close>

datatype cs_value = CsInt "32 word" | CsNull | CsOther string

type_synonym cs_object = "(string \<times> cs_value) list"

text \<open>
  The two tests of lines 340 to 343 (and 356 to 359). The text of an \<^verbatim>\<open>int\<close> parses as
  the same \<^verbatim>\<open>int\<close>, so a zero fails both.
\<close>

definition id_of_value :: "(string \<Rightarrow> 32 word option) \<Rightarrow> cs_value \<Rightarrow> 32 word option" where
  "id_of_value try_parse v =
     (case v of
        CsInt intValue \<Rightarrow> if intValue \<noteq> 0 then Some intValue else None
      | CsNull \<Rightarrow> None
      | CsOther text \<Rightarrow>
          (case try_parse text of
             None \<Rightarrow> None
           | Some parsedValue \<Rightarrow> if parsedValue \<noteq> 0 then Some parsedValue else None))"

definition idFieldNames :: "string list" where
  "idFieldNames = [''Id'', ''ID'', ''id'', ''iD'', ''ID_'', ''Id_'', ''id_'']"

fun try_id_fields ::
  "(string \<Rightarrow> 32 word option) \<Rightarrow> cs_object \<Rightarrow> string list \<Rightarrow> 32 word option" where
  "try_id_fields try_parse obj [] = None"
| "try_id_fields try_parse obj (fieldName # rest) =
     (case map_of obj fieldName of
        None \<Rightarrow> try_id_fields try_parse obj rest
      | Some v \<Rightarrow>
          (case id_of_value try_parse v of
             Some i \<Rightarrow> Some i
           | None \<Rightarrow> try_id_fields try_parse obj rest))"

fun scan_all_fields :: "(string \<Rightarrow> 32 word option) \<Rightarrow> cs_object \<Rightarrow> 32 word option" where
  "scan_all_fields try_parse [] = None"
| "scan_all_fields try_parse ((fieldName, v) # rest) =
     (if lower fieldName = lower ''Id'' \<or> contains ''id'' (lower fieldName) then
        (case id_of_value try_parse v of
           Some i \<Rightarrow> Some i
         | None \<Rightarrow> scan_all_fields try_parse rest)
      else scan_all_fields try_parse rest)"

definition GetIdValue :: "(string \<Rightarrow> 32 word option) \<Rightarrow> cs_object option \<Rightarrow> 32 word option" where
  "GetIdValue try_parse obj =
     (case obj of
        None \<Rightarrow> None
      | Some allFields \<Rightarrow>
          (case try_id_fields try_parse allFields idFieldNames of
             Some i \<Rightarrow> Some i
           | None \<Rightarrow> scan_all_fields try_parse allFields))"

text \<open>
  Lines 274 to 292: the loop of \<^verbatim>\<open>Initialize\<close> over the items of one table, on the list
  and the dictionary of that table.
\<close>

record 'a store =
  items_list :: "'a list"
  items_dict :: "32 word \<rightharpoonup> 'a"

fun load_items ::
  "(string \<Rightarrow> 32 word option) \<Rightarrow> cs_object option list \<Rightarrow> cs_object store \<Rightarrow> cs_object store"
where
  "load_items try_parse [] st = st"
| "load_items try_parse (item # rest) st =
     (case item of
        None \<Rightarrow> load_items try_parse rest st
      | Some obj \<Rightarrow>
          (let st1 = st\<lparr>items_list := items_list st @ [obj]\<rparr>;
               idValue = GetIdValue try_parse item
           in case idValue of
                None \<Rightarrow> load_items try_parse rest st1
              | Some i \<Rightarrow>
                  if i \<noteq> 0 then load_items try_parse rest (st1\<lparr>items_dict := (items_dict st1)(i \<mapsto> obj)\<rparr>)
                  else load_items try_parse rest st1))"

definition empty_store :: "cs_object store" where
  "empty_store = \<lparr>items_list = [], items_dict = Map.empty\<rparr>"

section \<open>The vocabulary of the properties\<close>

text \<open>The JSON type of an emitted value, and the zero value of a column type.\<close>

fun json_type :: "json \<Rightarrow> cstype" where
  "json_type (JInt i) = TInt"
| "json_type (JFloat x) = TFloat"
| "json_type (JBool b) = TBool"
| "json_type (JStr s) = TString"

fun zero_value :: "cstype \<Rightarrow> json" where
  "zero_value TInt = JInt 0"
| "zero_value TFloat = JFloat (Finite False 0 0)"
| "zero_value TBool = JBool False"
| "zero_value TString = JStr []"

text \<open>
  The cell that supplies a field of an emitted row. The emitted row is a dictionary keyed
  by the field names, so when two headers of a row give the same field name the later
  cell is the one that supplies the field.
\<close>

definition supplier :: "row \<Rightarrow> string \<Rightarrow> (string \<times> pyval) option" where
  "supplier r field = map_of (rev (map (\<lambda>(header, v). (to_pascal_case header, (header, v))) r)) field"

text \<open>The first value of a column that is neither \<^verbatim>\<open>None\<close> nor blank.\<close>

definition first_value :: "string \<Rightarrow> row list \<Rightarrow> pyval option" where
  "first_value header rows =
     find (\<lambda>v. v \<noteq> PNone \<and> strip (py_str v) \<noteq> []) (map (\<lambda>r. row_get r header) rows)"

text \<open>
  The values on which a conversion of \<^verbatim>\<open>main\<close> raises an error that its \<^verbatim>\<open>except\<close>
  clauses do not name.
\<close>

fun overflowing :: "cstype \<Rightarrow> pyval \<Rightarrow> bool" where
  "overflowing TInt (PFloat (Infinite neg)) = True"
| "overflowing TFloat (PInt n) = (float_overflow_bound \<le> \<bar>n\<bar>)"
| "overflowing t v = False"

text \<open>A cell that holds nothing: \<^verbatim>\<open>None\<close>, or a text of white space only.\<close>

definition blank :: "pyval \<Rightarrow> bool" where
  "blank v = (v = PNone \<or> strip (py_str v) = [])"

text \<open>The value of a field of a C\# object, by the name of the field.\<close>

definition field_value :: "cs_object \<Rightarrow> string \<Rightarrow> cs_value" where
  "field_value obj name = (case map_of obj name of None \<Rightarrow> CsNull | Some v \<Rightarrow> v)"

text \<open>
  The characters of which the text of a float in a document has at least one, and the
  text of an integer none.
\<close>

definition float_markers :: "char set" where
  "float_markers = {CHR ''.'', CHR ''e'', CHR ''N'', CHR ''I''}"

text \<open>
  The order of the keys of a Python dictionary filled from a list of keys: each key at
  the place of its first insertion.
\<close>

definition insert_key :: "string \<Rightarrow> string list \<Rightarrow> string list" where
  "insert_key k ks = (if k \<in> set ks then ks else ks @ [k])"

definition key_order :: "string list \<Rightarrow> string list" where
  "key_order ks = fold insert_key ks []"

text \<open>The field names of every emitted row, from the headers alone.\<close>

definition field_order :: "string list \<Rightarrow> string list" where
  "field_order hs = key_order (map to_pascal_case (key_order hs))"

section \<open>A sample sheet\<close>

text \<open>
  A sheet in the style of the tables that \<^verbatim>\<open>generate_game_tables.py\<close> writes, with a blank
  row, empty cells, a column of integers with one decimal value and one text, and a
  column of truth values written in three ways.
\<close>

definition actor_sheet :: worksheet where
  "actor_sheet =
     \<lparr>title = ''Actor'',
      grid =
        [[PStr ''Id'', PStr ''Name'', PStr ''MaxHealth'', PStr ''Alive''],
         [PInt 1, PStr ''Veteran'', PInt 150, PStr ''true''],
         [PNone, PStr ''  '', PNone, PNone],
         [PInt 2, PNone, PFloat (Finite False 1505 (- 1)), PStr ''Yes''],
         [PNone, PStr ''Rookie'', PStr ''n/a'', PInt 0]]\<rparr>"

definition actor_table :: table_info where
  "actor_table =
     \<lparr>headers = [''Id'', ''Name'', ''MaxHealth'', ''Alive''],
      data =
        [[(''Id'', PInt 1), (''Name'', PStr ''Veteran''), (''MaxHealth'', PInt 150),
          (''Alive'', PStr ''true'')],
         [(''Id'', PInt 2), (''Name'', PNone),
          (''MaxHealth'', PFloat (Finite False 1505 (- 1))), (''Alive'', PStr ''Yes'')],
         [(''Id'', PNone), (''Name'', PStr ''Rookie''), (''MaxHealth'', PStr ''n/a''),
          (''Alive'', PInt 0)]]\<rparr>"

definition actor_items :: "json_row list" where
  "actor_items =
     [[(''Id'', JInt 1), (''Name'', JStr ''Veteran''),
       (''Maxhealth'', JFloat (Finite False 150 0)), (''Alive'', JBool True)],
      [(''Id'', JInt 2), (''Name'', JStr []),
       (''Maxhealth'', JFloat (Finite False 1505 (- 1))), (''Alive'', JBool True)],
      [(''Id'', JInt 0), (''Name'', JStr ''Rookie''),
       (''Maxhealth'', JFloat (Finite False 0 0)), (''Alive'', JBool False)]]"

text \<open>A second sheet with the same header row and other data.\<close>

definition monster_sheet :: worksheet where
  "monster_sheet =
     \<lparr>title = ''Monster'',
      grid =
        [[PStr ''Id'', PStr ''Name'', PStr ''MaxHealth'', PStr ''Alive''],
         [PInt 101, PStr ''Zombie'', PInt 50, PBool False]]\<rparr>"

definition monster_table :: table_info where
  "monster_table =
     \<lparr>headers = [''Id'', ''Name'', ''MaxHealth'', ''Alive''],
      data =
        [[(''Id'', PInt 101), (''Name'', PStr ''Zombie''), (''MaxHealth'', PInt 50),
          (''Alive'', PBool False)]]\<rparr>"

definition monster_items :: "json_row list" where
  "monster_items =
     [[(''Id'', JInt 101), (''Name'', JStr ''Zombie''), (''Maxhealth'', JInt 50),
       (''Alive'', JBool False)]]"

text \<open>A sheet with a header row and one blank row.\<close>

definition notes_sheet :: worksheet where
  "notes_sheet =
     \<lparr>title = ''Notes'', grid = [[PStr ''Id'', PStr ''Name''], [PNone, PStr ''   '']]\<rparr>"

text \<open>
  A column of levels whose first value is an integer and whose second value is a text
  with points that is no number.
\<close>

definition version_table :: table_info where
  "version_table =
     \<lparr>headers = [''Level''],
      data = [[(''Level'', PInt 1)], [(''Level'', PStr ''1.2.3'')]]\<rparr>"

text \<open>
  A sheet with one column: a decimal number, then an integer beyond the range of
  \<^verbatim>\<open>float\<close>.
\<close>

definition overflow_sheet :: worksheet where
  "overflow_sheet =
     \<lparr>title = ''Stats'',
      grid = [[PStr ''Damage''], [PFloat (Finite False 15 (- 1))], [PInt (2 ^ 1024)]]\<rparr>"

text \<open>The table that \<^verbatim>\<open>parse_excel_file\<close> reads from that sheet.\<close>

definition overflow_table :: table_info where
  "overflow_table =
     \<lparr>headers = [''Damage''],
      data = [[(''Damage'', PFloat (Finite False 15 (- 1)))], [(''Damage'', PInt (2 ^ 1024))]]\<rparr>"

text \<open>Objects of the record types of a sheet with the header Id, Name and of one with Code, Name.\<close>

definition actor_objects :: "cs_object list" where
  "actor_objects =
     [[(''Id'', CsInt 1), (''Name'', CsOther ''Veteran'')],
      [(''Id'', CsInt 0), (''Name'', CsOther ''Nobody'')],
      [(''Id'', CsInt 2), (''Name'', CsOther ''Rookie'')]]"

definition code_objects :: "cs_object list" where
  "code_objects =
     [[(''Code'', CsInt 7), (''Name'', CsOther ''Sword'')],
      [(''Code'', CsInt 8), (''Name'', CsOther ''Shield'')]]"

section \<open>Facts about the model\<close>

lemma actor_sheet_parsed: "parse_sheet actor_sheet = Some actor_table"
  by code_simp

lemma actor_table_converted: "convert_table actor_table = Inr actor_items"
  by code_simp

lemma monster_sheet_parsed: "parse_sheet monster_sheet = Some monster_table"
  by code_simp

lemma monster_table_converted: "convert_table monster_table = Inr monster_items"
  by code_simp

lemma header_only_sheet_rows: "read_data_rows notes_sheet = []"
  by code_simp

subsection \<open>The types of the columns\<close>

lemma map_of_fold_update:
  "map_of (fold (\<lambda>h m. AList.update h (f h) m) hs m0) h =
     (if h \<in> set hs then Some (f h) else map_of m0 h)"
  by (induction hs arbitrary: m0) (auto simp: update_conv')

lemma get_type_field_types_map:
  "get_type (field_types_map hs rows) h = (if h \<in> set hs then infer_type h rows else TString)"
  by (simp add: get_type_def field_types_map_def map_of_fold_update)

subsection \<open>The conversion of a value\<close>

lemma convert_value_type: "convert_value ty v = Inr j \<Longrightarrow> json_type j = ty"
  by (cases ty; cases v) (auto simp: convert_value_def split: sum.splits if_splits)

lemma convert_value_None: "convert_value ty PNone = Inr (zero_value ty)"
  by (cases ty) (simp_all add: convert_value_def)

lemma convert_value_fails:
  "convert_value ty v = Inl e \<longleftrightarrow> e = OverflowError \<and> overflowing ty v"
proof (cases ty)
  case TInt
  show ?thesis
  proof (cases v)
    case (PFloat x)
    then show ?thesis using TInt by (cases x) (auto simp: convert_value_def Let_def)
  qed (use TInt in \<open>auto simp: convert_value_def split: option.splits\<close>)
next
  case TFloat
  then show ?thesis
    by (cases v) (auto simp: convert_value_def float_of_int_def split: option.splits)
qed (cases v; auto simp: convert_value_def)+

subsection \<open>The conversion of a row and of a table\<close>

lemma supplier_mem:
  "supplier r field = Some (h, v) \<Longrightarrow> (h, v) \<in> set r \<and> to_pascal_case h = field"
  unfolding supplier_def by (auto dest!: map_of_SomeD)

lemma supplier_Cons:
  "supplier ((h, v) # r) field =
     (case supplier r field of
        None \<Rightarrow> if field = to_pascal_case h then Some (h, v) else None
      | Some x \<Rightarrow> Some x)"
  by (auto simp: supplier_def map_add_def split: option.splits)

lemma convert_items_map_of:
  "convert_items ftm r acc = Inr out \<Longrightarrow>
   map_of out field =
     (case supplier r field of
        None \<Rightarrow> map_of acc field
      | Some (h, v) \<Rightarrow>
          (case convert_value (get_type ftm h) v of Inr j \<Rightarrow> Some j | Inl e \<Rightarrow> None))"
proof (induction r arbitrary: acc)
  case Nil
  then show ?case by (simp add: supplier_def)
next
  case (Cons a r)
  obtain h v where a: "a = (h, v)" by (cases a)
  from Cons.prems a obtain j where j: "convert_value (get_type ftm h) v = Inr j"
    and rest: "convert_items ftm r (AList.update (to_pascal_case h) j acc) = Inr out"
    by (auto split: sum.splits)
  show ?case
    using Cons.IH[OF rest] j by (auto simp: a supplier_Cons update_conv' split: option.splits)
qed

lemma convert_items_succeed:
  "convert_items ftm r acc = Inr out \<Longrightarrow> (h, v) \<in> set r \<Longrightarrow>
   \<exists>j. convert_value (get_type ftm h) v = Inr j"
  by (induction r arbitrary: acc) (auto split: sum.splits)

lemma convert_rows_all2:
  "convert_rows ftm rows = Inr outs \<Longrightarrow>
   list_all2 (\<lambda>r out. convert_items ftm r [] = Inr out) rows outs"
  by (induction rows arbitrary: outs) (auto split: sum.splits)

lemma convert_table_row:
  assumes "convert_table t = Inr converted_data" and "i < length (data t)"
  shows "convert_items (field_types_map (headers t) (data t)) (data t ! i) []
           = Inr (converted_data ! i)"
  using convert_rows_all2[OF assms(1)[unfolded convert_table_def]] assms(2)
  by (auto simp: list_all2_conv_all_nth)

lemma convert_table_length:
  "convert_table t = Inr converted_data \<Longrightarrow> length converted_data = length (data t)"
  by (auto simp: convert_table_def dest!: convert_rows_all2 list_all2_lengthD)

text \<open>
  The conversion of a table ends without an error when no value overflows the type of
  its column.
\<close>

lemma convert_value_succeeds:
  "\<not> overflowing ty v \<Longrightarrow> \<exists>j. convert_value ty v = Inr j"
  using convert_value_fails[of ty v] by (cases "convert_value ty v") auto

lemma convert_items_succeeds:
  "list_all (\<lambda>(h, v). \<not> overflowing (get_type ftm h) v) r \<Longrightarrow>
   \<exists>out. convert_items ftm r acc = Inr out"
proof (induction r arbitrary: acc)
  case Nil
  then show ?case by simp
next
  case (Cons a r)
  obtain h v where a: "a = (h, v)" by (cases a)
  from Cons.prems a obtain j where "convert_value (get_type ftm h) v = Inr j"
    using convert_value_succeeds by fastforce
  then show ?case
    using Cons.IH[of "AList.update (to_pascal_case h) j acc"] Cons.prems by (simp add: a)
qed

lemma convert_rows_succeeds:
  "list_all (list_all (\<lambda>(h, v). \<not> overflowing (get_type ftm h) v)) rows \<Longrightarrow>
   \<exists>outs. convert_rows ftm rows = Inr outs"
proof (induction rows)
  case Nil
  then show ?case by simp
next
  case (Cons r rows)
  from Cons.prems obtain out where "convert_items ftm r [] = Inr out"
    using convert_items_succeeds[of ftm r "[]"] by auto
  moreover from Cons obtain outs where "convert_rows ftm rows = Inr outs"
    by auto
  ultimately show ?case by simp
qed

text \<open>
  The value of an emitted field is the conversion of the cell that supplies the field,
  at the type inferred for the column of that cell.
\<close>

lemma emitted_field:
  assumes "convert_table t = Inr converted_data" and "i < length (data t)"
    and "supplier (data t ! i) field = Some (header, v)"
    and "header \<in> set (headers t)"
  shows "\<exists>j. convert_value (infer_type header (data t)) v = Inr j
           \<and> map_of (converted_data ! i) field = Some j"
proof -
  let ?ftm = "field_types_map (headers t) (data t)"
  have items: "convert_items ?ftm (data t ! i) [] = Inr (converted_data ! i)"
    using convert_table_row[OF assms(1,2)] .
  have ty: "get_type ?ftm header = infer_type header (data t)"
    using assms(4) by (simp add: get_type_field_types_map)
  from supplier_mem[OF assms(3)] convert_items_succeed[OF items]
  obtain j where j: "convert_value (get_type ?ftm header) v = Inr j" by blast
  show ?thesis
    using convert_items_map_of[OF items, of field] j assms(3) ty by simp
qed

subsection \<open>The order of the keys\<close>

lemma keys_fold_update:
  "map fst (fold (\<lambda>x m. AList.update (k x) (f x) m) xs acc)
     = fold insert_key (map k xs) (map fst acc)"
  by (induction xs arbitrary: acc) (simp_all add: update_keys insert_key_def)

lemma set_fold_insert_key: "set (fold insert_key ks acc) = set ks \<union> set acc"
  by (induction ks arbitrary: acc) (auto simp: insert_key_def)

lemma distinct_fold_insert_key: "distinct acc \<Longrightarrow> distinct (fold insert_key ks acc)"
  by (induction ks arbitrary: acc) (auto simp: insert_key_def)

lemma fold_insert_key_distinct: "distinct (acc @ ks) \<Longrightarrow> fold insert_key ks acc = acc @ ks"
  by (induction ks arbitrary: acc) (auto simp: insert_key_def)

lemma key_order_distinct: "distinct ks \<Longrightarrow> key_order ks = ks"
  by (simp add: key_order_def fold_insert_key_distinct)

lemma set_key_order: "set (key_order ks) = set ks"
  by (simp add: key_order_def set_fold_insert_key)

lemma distinct_key_order: "distinct (key_order ks)"
  by (simp add: key_order_def distinct_fold_insert_key)

lemma keys_read_row: "map fst (read_row ws hs n) = key_order hs"
proof -
  have "read_row ws hs n =
      fold (\<lambda>x m. AList.update (snd x) (read_cell (cell_value ws n (fst x))) m)
        (zip [1 ..< Suc (length hs)] hs) []"
    by (simp only: read_row_def case_prod_unfold)
  moreover have "map snd (zip [1 ..< Suc (length hs)] hs) = hs"
    by (rule map_snd_zip) (simp del: upt_Suc)
  ultimately show ?thesis
    by (simp only: keys_fold_update key_order_def list.map)
qed

lemma parsed_rows:
  assumes "parse_sheet ws = Some t" and "r \<in> set (data t)"
  shows "map fst r = key_order (headers t)"
proof -
  from assms(1) have t: "headers t = read_headers ws" "data t = read_data_rows ws"
    by (auto simp: parse_sheet_def Let_def split: if_splits)
  with assms(2) obtain n where "r = read_row ws (read_headers ws) n"
    by (auto simp: read_data_rows_def)
  then show ?thesis by (simp add: keys_read_row t)
qed

lemma keys_convert_items:
  "convert_items ftm r acc = Inr out \<Longrightarrow>
   map fst out = fold insert_key (map (\<lambda>x. to_pascal_case (fst x)) r) (map fst acc)"
proof (induction r arbitrary: acc)
  case Nil
  then show ?case by simp
next
  case (Cons a r)
  obtain h v where a: "a = (h, v)" by (cases a)
  from Cons.prems a obtain j where
    rest: "convert_items ftm r (AList.update (to_pascal_case h) j acc) = Inr out"
    by (auto split: sum.splits)
  show ?case
    using Cons.IH[OF rest] by (simp add: a update_keys insert_key_def)
qed

lemma emitted_keys:
  assumes "parse_sheet ws = Some t" and "convert_table t = Inr converted_data"
    and "r \<in> set converted_data"
  shows "map fst r = field_order (headers t)"
proof -
  from assms(3) obtain i where i: "i < length converted_data" "r = converted_data ! i"
    by (auto simp: in_set_conv_nth)
  then have i': "i < length (data t)"
    using convert_table_length[OF assms(2)] by simp
  have "map fst (data t ! i) = key_order (headers t)"
    using parsed_rows[OF assms(1)] i' by simp
  moreover have "map (\<lambda>x. to_pascal_case (fst x)) (data t ! i) = map to_pascal_case (map fst (data t ! i))"
    by (simp add: comp_def)
  ultimately have "map (\<lambda>x. to_pascal_case (fst x)) (data t ! i) = map to_pascal_case (key_order (headers t))"
    by simp
  then show ?thesis
    using keys_convert_items[OF convert_table_row[OF assms(2) i']] i
    by (simp add: field_order_def key_order_def)
qed

text \<open>
  When the headers of a parsed sheet give pairwise distinct field names, every cell
  supplies its own field.
\<close>

lemma supplier_own:
  "distinct (map (\<lambda>x. to_pascal_case (fst x)) r) \<Longrightarrow> (h, v) \<in> set r \<Longrightarrow>
   supplier r (to_pascal_case h) = Some (h, v)"
proof -
  assume d: "distinct (map (\<lambda>x. to_pascal_case (fst x)) r)" and m: "(h, v) \<in> set r"
  let ?l = "rev (map (\<lambda>(header, v). (to_pascal_case header, (header, v))) r)"
  have "map fst ?l = rev (map (\<lambda>x. to_pascal_case (fst x)) r)"
    by (simp add: rev_map case_prod_beta comp_def)
  then have "distinct (map fst ?l)" using d by simp
  moreover have "(to_pascal_case h, (h, v)) \<in> set ?l" using m by force
  ultimately show ?thesis unfolding supplier_def by (rule map_of_is_SomeI)
qed

lemma parsed_supplier:
  assumes "parse_sheet ws = Some t" and "distinct (map to_pascal_case (headers t))"
    and "r \<in> set (data t)" and "header \<in> set (headers t)"
  shows "supplier r (to_pascal_case header) = Some (header, row_get r header)"
proof -
  have dh: "distinct (headers t)" using assms(2) by (simp add: distinct_map)
  have keys: "map fst r = headers t"
    using parsed_rows[OF assms(1,3)] dh by (simp add: key_order_distinct)
  moreover have "map (\<lambda>x. to_pascal_case (fst x)) r = map to_pascal_case (map fst r)"
    by (simp add: comp_def)
  ultimately have d: "distinct (map (\<lambda>x. to_pascal_case (fst x)) r)"
    using assms(2) by simp
  have "header \<in> set (map fst r)" using keys assms(4) by simp
  then obtain v where v: "(header, v) \<in> set r" by auto
  have "distinct (map fst r)" using keys dh by simp
  then have "map_of r header = Some v" using v by simp
  then show ?thesis using supplier_own[OF d v] by (simp add: row_get_def)
qed

subsection \<open>Reading the sheets\<close>

lemma parse_excel_file_Some:
  "parse_excel_file (Some wb) =
     (let result = fold add_sheet wb [] in if result \<noteq> [] then Some result else None)"
  by (simp add: parse_excel_file_def)

lemma no_rows_no_table: "read_data_rows ws = [] \<Longrightarrow> parse_sheet ws = None"
  by (simp add: parse_sheet_def)

lemma update_fresh: "k \<notin> fst ` set al \<Longrightarrow> AList.update k v al = al @ [(k, v)]"
  by (induction al) auto

lemma fold_add_sheet_distinct:
  "distinct (map title wb) \<Longrightarrow> title ` set wb \<inter> fst ` set acc = {} \<Longrightarrow>
   fold add_sheet wb acc =
     acc @ map (\<lambda>ws. (title ws, the (parse_sheet ws))) (filter (\<lambda>ws. parse_sheet ws \<noteq> None) wb)"
proof (induction wb arbitrary: acc)
  case Nil
  then show ?case by simp
next
  case (Cons ws wb)
  show ?case
  proof (cases "parse_sheet ws")
    case None
    then show ?thesis using Cons by (simp add: add_sheet_def)
  next
    case (Some t)
    have fresh: "title ws \<notin> fst ` set acc" using Cons.prems(2) by auto
    have "title ` set wb \<inter> fst ` set (acc @ [(title ws, t)]) = {}"
      using Cons.prems by auto
    then show ?thesis
      using Cons.IH[of "acc @ [(title ws, t)]"] Cons.prems(1) Some fresh
      by (simp add: add_sheet_def update_fresh)
  qed
qed

lemma export_tables_keys:
  "export_tables stem tables ts = Inr outs \<Longrightarrow>
   map out_key outs = map (\<lambda>x. table_key stem tables (fst x)) ts"
  by (induction ts arbitrary: outs) (auto split: sum.splits)

lemma values_fold_update:
  "snd ` set (fold (\<lambda>x m. AList.update (k x) (f x) m) xs acc) \<subseteq> f ` set xs \<union> snd ` set acc"
proof (induction xs arbitrary: acc)
  case Nil
  then show ?case by simp
next
  case (Cons x xs)
  have "set (AList.update (k x) (f x) acc) \<subseteq> insert (k x, f x) (set acc)"
    by (induction acc) auto
  then have "snd ` set (AList.update (k x) (f x) acc) \<subseteq> insert (f x) (snd ` set acc)"
    by force
  with Cons.IH[of "AList.update (k x) (f x) acc"] show ?case by auto
qed

lemma strip_Nil: "strip [] = []" by (simp add: strip_def)

lemma read_cell_blank: "blank v \<Longrightarrow> blank (read_cell v)"
  by (cases v) (auto simp: blank_def read_cell_def strip_Nil)

lemma blank_sheet_no_rows:
  assumes "\<And>r c. 2 \<le> r \<Longrightarrow> blank (cell_value ws r c)"
  shows "read_data_rows ws = []"
proof -
  have "\<not> row_nonblank (read_row ws hs n)" if "2 \<le> n" for hs n
  proof -
    let ?f = "\<lambda>x. read_cell (cell_value ws n (fst x))"
    let ?cols = "zip [1 ..< Suc (length hs)] hs"
    have eq: "read_row ws hs n = fold (\<lambda>x m. AList.update (snd x) (?f x) m) ?cols []"
      by (simp only: read_row_def case_prod_unfold)
    have sub: "snd ` set (read_row ws hs n) \<subseteq> ?f ` set ?cols"
      unfolding eq using values_fold_update[of snd ?f ?cols "[]"] by (simp del: upt_Suc)
    have bf: "blank (read_cell (cell_value ws n c))" for c
      using assms[OF that] by (rule read_cell_blank)
    have bl: "blank v" if v: "v \<in> snd ` set (read_row ws hs n)" for v
    proof -
      from sub v have "v \<in> ?f ` set ?cols" by (rule subsetD)
      then obtain x :: "nat \<times> string" where "v = read_cell (cell_value ws n (fst x))"
        by (elim imageE)
      then show ?thesis by (simp only: bf)
    qed
    show ?thesis
    proof
      assume "row_nonblank (read_row ws hs n)"
      then obtain k v where kv: "(k, v) \<in> set (read_row ws hs n)"
        and nb: "v \<noteq> PNone" "strip (py_str v) \<noteq> []"
        unfolding row_nonblank_def list_ex_iff by blast
      from kv have "v \<in> snd ` set (read_row ws hs n)" by force
      from bl[OF this] nb show False by (simp add: blank_def)
    qed
  qed
  then have "\<forall>n \<in> set [2 ..< Suc (max_row ws)]. \<not> row_nonblank (read_row ws (read_headers ws) n)"
    by (simp del: upt_Suc)
  then show ?thesis
    unfolding read_data_rows_def filter_empty_conv by (simp del: upt_Suc)
qed

subsection \<open>The inference of a column type\<close>

lemma check_float_iff:
  "check_float header rows = TFloat \<longleftrightarrow>
     (\<exists>r \<in> set rows. row_get r header \<noteq> PNone
        \<and> py_float_of_str (py_str (row_get r header)) \<noteq> None
        \<and> contains ''.'' (py_str (row_get r header)))"
  by (induction rows) (auto simp: Let_def)

lemma infer_from_first_value:
  "infer_from header all_rows rows =
     (case first_value header rows of
        None \<Rightarrow> TString
      | Some v \<Rightarrow>
          if to_csharp_type header v = TInt then check_float header all_rows
          else to_csharp_type header v)"
  by (induction rows) (auto simp: first_value_def Let_def)

subsection \<open>The text of a number\<close>

lemma digit_zip: "zip [0 ..< 10] digit_chars =
   [(0, CHR ''0''), (1, CHR ''1''), (2, CHR ''2''), (3, CHR ''3''), (4, CHR ''4''),
    (5, CHR ''5''), (6, CHR ''6''), (7, CHR ''7''), (8, CHR ''8''), (9, CHR ''9'')]"
  by code_simp

lemma digit_char_digit: "digit_char d \<in> set digit_chars"
  unfolding digit_char_def digit_zip by (simp add: digit_chars_def)

lemma show_nat_digits: "set (show_nat n) \<subseteq> set digit_chars"
proof (induction n rule: show_nat.induct)
  case (1 n)
  show ?case
  proof (cases "n < 10")
    case True
    then show ?thesis by (simp add: show_nat.simps[of n] digit_char_digit)
  next
    case False
    then show ?thesis using 1 by (simp add: show_nat.simps[of n] digit_char_digit)
  qed
qed

lemma show_int_chars: "set (show_int i) \<subseteq> insert (CHR ''-'') (set digit_chars)"
  using show_nat_digits[of "nat i"] show_nat_digits[of "nat (- i)"]
  unfolding show_int_def by (cases "i < 0") auto

lemma float_repr_finite_marker:
  "CHR ''.'' \<in> set (float_repr_finite m e) \<or> CHR ''e'' \<in> set (float_repr_finite m e)"
proof (cases "m = 0")
  case True
  then show ?thesis by (simp add: float_repr_finite_def)
next
  case False
  obtain sig decpt where fd: "float_digits m e = (sig, decpt)"
    by (cases "float_digits m e")
  show ?thesis
  proof (cases "decpt \<le> - 4 \<or> 16 < decpt")
    case True
    then show ?thesis using False by (simp add: float_repr_finite_def fd Let_def)
  next
    case False
    then show ?thesis using \<open>m \<noteq> 0\<close> by (simp add: float_repr_finite_def fd Let_def)
  qed
qed

lemma float_text_marker: "\<exists>c \<in> float_markers. c \<in> set (json_text (JFloat x))"
proof (cases x)
  case (Finite neg m e)
  then show ?thesis
    using float_repr_finite_marker[of m e] by (auto simp: float_markers_def)
next
  case (Infinite neg)
  then show ?thesis by (cases neg) (simp_all add: float_markers_def)
next
  case NaN
  then show ?thesis by (simp add: float_markers_def)
qed

lemma float_markers_not_int: "c \<in> float_markers \<Longrightarrow> c \<notin> insert (CHR ''-'') (set digit_chars)"
  by (auto simp: float_markers_def digit_chars_def)

lemma float_text_not_int: "json_text (JFloat x) \<noteq> json_text (JInt n)"
proof
  assume eq: "json_text (JFloat x) = json_text (JInt n)"
  from float_text_marker[of x] obtain c where c: "c \<in> float_markers" "c \<in> set (json_text (JFloat x))"
    by blast
  with eq have "c \<in> set (show_int n)" by simp
  with show_int_chars[of n] have "c \<in> insert (CHR ''-'') (set digit_chars)" by blast
  with float_markers_not_int[OF c(1)] show False by simp
qed

subsection \<open>A sheet with an integer beyond the range of float\<close>

lemma show_nat_nonempty: "show_nat n \<noteq> []"
  by (subst show_nat.simps) simp

lemma int_text_no_space: "c \<in> insert (CHR ''-'') (set digit_chars) \<Longrightarrow> \<not> is_space c"
  by (auto simp: digit_chars_def is_space_def whitespace_chars_def)

lemma strip_no_space:
  assumes "s \<noteq> []" and "\<forall>c \<in> set s. \<not> is_space c"
  shows "strip s = s"
proof -
  have "\<not> is_space (hd s)" "\<not> is_space (hd (rev s))"
    using assms by (simp_all add: hd_rev)
  then have "dropWhile is_space s = s" "dropWhile is_space (rev s) = rev s"
    by (simp_all add: dropWhile_eq_self_iff)
  then show ?thesis
    by (simp add: strip_def)
qed

lemma int_text_nonblank: "strip (show_int n) \<noteq> []"
proof -
  have ne: "show_int n \<noteq> []"
    by (simp add: show_int_def show_nat_nonempty)
  moreover have "\<forall>c \<in> set (show_int n). \<not> is_space c"
    using show_int_chars[of n] int_text_no_space by blast
  ultimately show ?thesis by (simp add: strip_no_space)
qed

lemma overflow_sheet_parsed: "parse_sheet overflow_sheet = Some overflow_table"
proof -
  have mr: "max_row overflow_sheet = 3"
    by (simp add: max_row_def overflow_sheet_def)
  have hs: "read_headers overflow_sheet = [''Damage'']"
    by code_simp
  have r2: "read_row overflow_sheet [''Damage''] 2 = [(''Damage'', PFloat (Finite False 15 (- 1)))]"
    and r3: "read_row overflow_sheet [''Damage''] 3 = [(''Damage'', PInt (2 ^ 1024))]"
    by code_simp+
  have nb2: "row_nonblank [(''Damage'', PFloat (Finite False 15 (- 1)))]"
    by code_simp
  have nb3: "row_nonblank [(''Damage'', PInt n)]" for n
    by (simp add: row_nonblank_def int_text_nonblank)
  have up: "[2 ..< Suc 3] = [2, 3]"
    by code_simp
  have "read_data_rows overflow_sheet = data overflow_table"
    by (simp only: read_data_rows_def mr hs up list.map r2 r3 filter.simps nb2 nb3 if_True
        overflow_table_def table_info.simps)
  then show ?thesis
    by (simp add: parse_sheet_def mr hs overflow_table_def)
qed

lemma overflow_table_fails: "convert_table overflow_table = Inl OverflowError"
  by code_simp

subsection \<open>The generated manager\<close>

lemma id_of_value_nonzero: "id_of_value try_parse v = Some i \<Longrightarrow> i \<noteq> 0"
  by (auto simp: id_of_value_def split: cs_value.splits option.splits if_splits)

lemma try_id_fields_nonzero: "try_id_fields try_parse obj names = Some i \<Longrightarrow> i \<noteq> 0"
  by (induction names) (auto split: option.splits dest: id_of_value_nonzero)

lemma scan_all_fields_nonzero: "scan_all_fields try_parse obj = Some i \<Longrightarrow> i \<noteq> 0"
  by (induction obj) (auto split: option.splits if_splits dest: id_of_value_nonzero)

lemma GetIdValue_nonzero: "GetIdValue try_parse obj = Some i \<Longrightarrow> i \<noteq> 0"
  by (auto simp: GetIdValue_def split: option.splits
      dest: try_id_fields_nonzero scan_all_fields_nonzero)

lemma find_snoc:
  "find P (xs @ [x]) = (case find P xs of None \<Rightarrow> (if P x then Some x else None) | Some y \<Rightarrow> Some y)"
  by (induction xs) auto

lemma load_items_Some:
  "items_list (load_items try_parse (map Some objs) st) = items_list st @ objs
   \<and> items_dict (load_items try_parse (map Some objs) st) =
       (\<lambda>k. case find (\<lambda>obj. GetIdValue try_parse (Some obj) = Some k) (rev objs) of
              None \<Rightarrow> items_dict st k
            | Some obj \<Rightarrow> Some obj)"
proof (induction objs arbitrary: st)
  case Nil
  then show ?case by simp
next
  case (Cons obj objs)
  show ?case
  proof (cases "GetIdValue try_parse (Some obj)")
    case None
    then show ?thesis
      using Cons.IH[of "st\<lparr>items_list := items_list st @ [obj]\<rparr>"]
      by (auto simp: Let_def find_snoc fun_eq_iff split: option.splits)
  next
    case (Some i)
    then have "i \<noteq> 0" by (rule GetIdValue_nonzero)
    then show ?thesis
      using Some Cons.IH[of "st\<lparr>items_list := items_list st @ [obj], items_dict := (items_dict st)(i \<mapsto> obj)\<rparr>"]
      by (auto simp: Let_def find_snoc fun_eq_iff split: option.splits)
  qed
qed

lemma names_Id: "map to_pascal_case [''Id'', ''Name''] = [''Id'', ''Name'']"
  by code_simp
lemma names_Code: "map to_pascal_case [''Code'', ''Name''] = [''Code'', ''Name'']"
  by code_simp

lemma lower_names: "lower ''Id'' = ''id''" "lower ''Name'' = ''name''" "lower ''Code'' = ''code''"
  "contains ''id'' ''name'' = False" "contains ''id'' ''code'' = False" "contains ''id'' ''id'' = True"
  by code_simp+

lemma GetIdValue_Id_Name:
  assumes "map fst obj = [''Id'', ''Name'']"
  shows "GetIdValue try_parse (Some obj) = id_of_value try_parse (field_value obj ''Id'')"
proof -
  from assms obtain a b where obj: "obj = [(''Id'', a), (''Name'', b)]"
    by (auto simp: map_eq_Cons_conv)
  show ?thesis
    by (cases "id_of_value try_parse a")
      (simp_all add: obj GetIdValue_def idFieldNames_def field_value_def lower_names)
qed

lemma GetIdValue_Code_Name:
  assumes "map fst obj = [''Code'', ''Name'']"
  shows "GetIdValue try_parse (Some obj) = None"
proof -
  from assms obtain a b where obj: "obj = [(''Code'', a), (''Name'', b)]"
    by (auto simp: map_eq_Cons_conv)
  show ?thesis
    by (simp add: obj GetIdValue_def idFieldNames_def lower_names)
qed

section \<open>The properties\<close>

text \<open>
  C4. For every cell value, \<^verbatim>\<open>to_csharp_type\<close> gives the type of the first rule that
  matches, the rules being tried in this order: native boolean, native integer, native
  float, the texts \<^verbatim>\<open>true\<close> and \<^verbatim>\<open>false\<close> in any case, a text that parses as an integer, a
  text that parses as a float; when no rule matches the type is text.
\<close>

theorem type_rule_order: "to_csharp_type excel_type v = first_match type_rules v"
proof (cases v)
  case PNone
  have "py_int_of_str ''None'' = None" "py_float_of_str ''None'' = None"
    "lower ''None'' = ''none''" "strip ''None'' = ''None''"
    by code_simp+
  then show ?thesis
    using PNone by (simp add: to_csharp_type_def type_rules_def text_of_def)
next
  case (PStr s)
  have "py_int_of_str [] = None" "py_float_of_str [] = None" "lower [] = []"
    by code_simp+
  then show ?thesis
    using PStr by (auto simp add: to_csharp_type_def type_rules_def text_of_def Let_def)
qed (simp_all add: to_csharp_type_def type_rules_def)

theorem type_rule_order_witness:
  "to_csharp_type ''Alive'' (PBool True) = TBool
   \<and> to_csharp_type ''MaxHealth'' (PStr ''150'') = TInt
   \<and> to_csharp_type ''MaxHealth'' (PStr ''150.5'') = TFloat
   \<and> to_csharp_type ''Name'' (PStr ''n/a'') = TString"
proof -
  have "first_match type_rules (PBool True) = TBool"
    "first_match type_rules (PStr ''150'') = TInt"
    "first_match type_rules (PStr ''150.5'') = TFloat"
    "first_match type_rules (PStr ''n/a'') = TString"
    by code_simp+
  then show ?thesis by (simp add: type_rule_order)
qed

text \<open>
  C2. For every empty source cell (the cell value is \<^verbatim>\<open>None\<close>), the value emitted for it
  in the document is the zero value of the type inferred for its column: 0 for an integer
  column, 0.0 for a float column, false for a boolean column, the empty string for a text
  column. The value emitted for a cell is the value of the field that the cell supplies;
  by \<open>parsed_supplier\<close> every cell of a parsed sheet supplies the field of its header when
  the headers give pairwise distinct field names.
\<close>

theorem empty_cell_zero_value:
  assumes "convert_table t = Inr converted_data" and "i < length (data t)"
    and "supplier (data t ! i) field = Some (header, PNone)"
    and "header \<in> set (headers t)"
  shows "map_of (converted_data ! i) field = Some (zero_value (infer_type header (data t)))"
  using emitted_field[OF assms] by (simp add: convert_value_None)

theorem empty_cell_zero_value_witness:
  "convert_table actor_table = Inr actor_items
   \<and> supplier (data actor_table ! 2) ''Id'' = Some (''Id'', PNone)
   \<and> supplier (data actor_table ! 1) ''Name'' = Some (''Name'', PNone)
   \<and> map_of (actor_items ! 2) ''Id'' = Some (JInt 0)
   \<and> map_of (actor_items ! 1) ''Name'' = Some (JStr [])"
proof -
  have len: "2 < length (data actor_table)" "1 < length (data actor_table)"
    by code_simp+
  have sup: "supplier (data actor_table ! 2) ''Id'' = Some (''Id'', PNone)"
    "supplier (data actor_table ! 1) ''Name'' = Some (''Name'', PNone)"
    by code_simp+
  have hd: "''Id'' \<in> set (headers actor_table)" "''Name'' \<in> set (headers actor_table)"
    by code_simp+
  have ty: "infer_type ''Id'' (data actor_table) = TInt"
    "infer_type ''Name'' (data actor_table) = TString"
    by code_simp+
  show ?thesis
    using empty_cell_zero_value[OF actor_table_converted len(1) sup(1) hd(1)]
      empty_cell_zero_value[OF actor_table_converted len(2) sup(2) hd(2)]
      actor_table_converted sup ty
    by simp
qed

text \<open>
  C10. In a column inferred as boolean, a value that is neither \<^verbatim>\<open>None\<close> nor a native
  boolean is emitted as true exactly when its text in lower case is \<^verbatim>\<open>true\<close>, \<^verbatim>\<open>1\<close> or
  \<^verbatim>\<open>yes\<close>, and as false otherwise.
\<close>

theorem bool_column_text:
  assumes "convert_table t = Inr converted_data" and "i < length (data t)"
    and "supplier (data t ! i) field = Some (header, v)"
    and "header \<in> set (headers t)"
    and "infer_type header (data t) = TBool"
    and "v \<noteq> PNone" and "\<not> isinstance_bool v"
  shows "map_of (converted_data ! i) field =
           Some (JBool (lower (py_str v) \<in> set [''true'', ''1'', ''yes'']))"
proof -
  have "convert_value TBool v = Inr (JBool (lower (py_str v) \<in> set [''true'', ''1'', ''yes'']))"
    using assms(6,7) by (cases v) (simp_all add: convert_value_def)
  with emitted_field[OF assms(1-4)] assms(5) show ?thesis by simp
qed

theorem bool_column_text_witness:
  "convert_table actor_table = Inr actor_items
   \<and> infer_type ''Alive'' (data actor_table) = TBool
   \<and> supplier (data actor_table ! 1) ''Alive'' = Some (''Alive'', PStr ''Yes'')
   \<and> supplier (data actor_table ! 2) ''Alive'' = Some (''Alive'', PInt 0)
   \<and> map_of (actor_items ! 1) ''Alive'' = Some (JBool True)
   \<and> map_of (actor_items ! 2) ''Alive'' = Some (JBool False)"
proof -
  have len: "1 < length (data actor_table)" "2 < length (data actor_table)"
    by code_simp+
  have sup: "supplier (data actor_table ! 1) ''Alive'' = Some (''Alive'', PStr ''Yes'')"
    "supplier (data actor_table ! 2) ''Alive'' = Some (''Alive'', PInt 0)"
    by code_simp+
  have hd: "''Alive'' \<in> set (headers actor_table)"
    by code_simp
  have ty: "infer_type ''Alive'' (data actor_table) = TBool"
    by code_simp
  have low: "lower (py_str (PStr ''Yes'')) \<in> set [''true'', ''1'', ''yes'']"
    "lower (py_str (PInt 0)) \<notin> set [''true'', ''1'', ''yes'']"
    by code_simp+
  show ?thesis
    using bool_column_text[OF actor_table_converted len(1) sup(1) hd ty]
      bool_column_text[OF actor_table_converted len(2) sup(2) hd ty]
      actor_table_converted sup ty low
    by simp
qed

text \<open>
  C3. The export is deterministic. Two exports of the same headers and the same data rows
  give the same text, byte for byte; and in any two exports of sheets with the same
  header row, whatever their data, every emitted row has the same field names in the same
  order, which is a function of the header row alone.
\<close>

theorem export_deterministic:
  assumes "parse_sheet ws = Some t" and "parse_sheet ws' = Some t'"
    and "headers t' = headers t"
    and "convert_table t = Inr converted_data" and "convert_table t' = Inr converted_data'"
  shows "(\<forall>r \<in> set converted_data \<union> set converted_data'. map fst r = field_order (headers t))
         \<and> (data t' = data t \<longrightarrow> json_dumps converted_data' = json_dumps converted_data)"
proof -
  have "data t' = data t \<Longrightarrow> converted_data' = converted_data"
    using assms(3,4,5) by (simp add: convert_table_def)
  then show ?thesis
    using emitted_keys[OF assms(1,4)] emitted_keys[OF assms(2,5)] assms(3) by auto
qed

theorem export_deterministic_witness:
  "parse_sheet actor_sheet = Some actor_table
   \<and> parse_sheet monster_sheet = Some monster_table
   \<and> headers monster_table = headers actor_table
   \<and> convert_table actor_table = Inr actor_items
   \<and> convert_table monster_table = Inr monster_items
   \<and> map fst (actor_items ! 2) = [''Id'', ''Name'', ''Maxhealth'', ''Alive'']
   \<and> map fst (monster_items ! 0) = [''Id'', ''Name'', ''Maxhealth'', ''Alive'']"
proof -
  have hs: "headers monster_table = headers actor_table"
    by code_simp
  have fo: "field_order (headers actor_table) = [''Id'', ''Name'', ''Maxhealth'', ''Alive'']"
    by code_simp
  have mem: "actor_items ! 2 \<in> set actor_items" "monster_items ! 0 \<in> set monster_items"
    by (simp_all add: actor_items_def monster_items_def)
  from export_deterministic[OF actor_sheet_parsed monster_sheet_parsed hs
      actor_table_converted monster_table_converted]
  have "\<forall>r \<in> set actor_items \<union> set monster_items. map fst r = field_order (headers actor_table)"
    by (rule conjunct1)
  with mem have "map fst (actor_items ! 2) = field_order (headers actor_table)"
    "map fst (monster_items ! 0) = field_order (headers actor_table)"
    by blast+
  then show ?thesis
    using actor_sheet_parsed monster_sheet_parsed hs actor_table_converted
      monster_table_converted fo
    by simp
qed

text \<open>
  C9. Every emitted document is homogeneous in its types: each value of each emitted row
  has the JSON type of the type inferred for the column that supplies it, an integer in
  an integer column, a float in a float column, a boolean in a boolean column and a
  string in a text column, whatever the source cells held.
\<close>

theorem emitted_types_homogeneous:
  assumes "parse_sheet ws = Some t" and "convert_table t = Inr converted_data"
    and "i < length converted_data" and "(field, j) \<in> set (converted_data ! i)"
  shows "\<exists>header v. supplier (data t ! i) field = Some (header, v)
           \<and> header \<in> set (headers t)
           \<and> json_type j = infer_type header (data t)"
proof -
  have i': "i < length (data t)"
    using convert_table_length[OF assms(2)] assms(3) by simp
  let ?ftm = "field_types_map (headers t) (data t)"
  have items: "convert_items ?ftm (data t ! i) [] = Inr (converted_data ! i)"
    using convert_table_row[OF assms(2) i'] .
  have "distinct (map fst (converted_data ! i))"
    using emitted_keys[OF assms(1,2)] assms(3)
    by (simp add: field_order_def distinct_key_order)
  then have look: "map_of (converted_data ! i) field = Some j"
    using assms(4) by simp
  with convert_items_map_of[OF items, of field]
  obtain header v where sup: "supplier (data t ! i) field = Some (header, v)"
    and conv: "convert_value (get_type ?ftm header) v = Inr j"
    by (auto split: option.splits sum.splits)
  have "header \<in> set (map fst (data t ! i))"
    using supplier_mem[OF sup] by force
  then have hd: "header \<in> set (headers t)"
    using parsed_rows[OF assms(1)] i' by (simp add: set_key_order)
  then have "json_type j = infer_type header (data t)"
    using convert_value_type[OF conv] by (simp add: get_type_field_types_map)
  with sup hd show ?thesis by blast
qed

theorem emitted_types_homogeneous_witness:
  "parse_sheet actor_sheet = Some actor_table
   \<and> convert_table actor_table = Inr actor_items
   \<and> 2 < length actor_items
   \<and> (''Maxhealth'', JFloat (Finite False 0 0)) \<in> set (actor_items ! 2)
   \<and> supplier (data actor_table ! 2) ''Maxhealth'' = Some (''MaxHealth'', PStr ''n/a'')
   \<and> infer_type ''MaxHealth'' (data actor_table) = TFloat"
proof -
  have len: "2 < length actor_items"
    by code_simp
  have mem: "(''Maxhealth'', JFloat (Finite False 0 0)) \<in> set (actor_items ! 2)"
    by (simp add: actor_items_def)
  have sup: "supplier (data actor_table ! 2) ''Maxhealth'' = Some (''MaxHealth'', PStr ''n/a'')"
    by code_simp
  from emitted_types_homogeneous[OF actor_sheet_parsed actor_table_converted len mem] sup
  have "json_type (JFloat (Finite False 0 0)) = infer_type ''MaxHealth'' (data actor_table)"
    by auto
  then show ?thesis
    using actor_sheet_parsed actor_table_converted len mem sup by simp
qed

text \<open>
  C5. A sheet that holds a header row and no data row, once the blank rows are dropped,
  gives no table: the tables parsed from the workbook, and with them the documents and
  the record types that the export writes, are those of the workbook without the sheet.
\<close>

theorem header_only_sheet_excluded:
  assumes "read_data_rows ws = []"
  shows "parse_sheet ws = None
         \<and> parse_excel_file (Some (before @ ws # after)) = parse_excel_file (Some (before @ after))
         \<and> export_file stem (Some (before @ ws # after)) = export_file stem (Some (before @ after))"
proof -
  have none: "parse_sheet ws = None"
    using assms by (rule no_rows_no_table)
  then have "add_sheet ws result = result" for result
    by (simp add: add_sheet_def)
  then have "parse_excel_file (Some (before @ ws # after)) = parse_excel_file (Some (before @ after))"
    by (simp add: parse_excel_file_Some)
  then show ?thesis
    using none by (simp add: export_file_def)
qed

theorem header_only_sheet_excluded_witness:
  "read_data_rows notes_sheet = []
   \<and> parse_sheet notes_sheet = None
   \<and> export_file ''Game'' (Some ([actor_sheet] @ notes_sheet # [monster_sheet]))
       = export_file ''Game'' (Some ([actor_sheet] @ [monster_sheet]))"
proof -
  have none: "read_data_rows notes_sheet = []"
    by code_simp
  from header_only_sheet_excluded[OF none, of "[actor_sheet]" "[monster_sheet]" "''Game''"] none
  show ?thesis by simp
qed

text \<open>
  C8. The tables of a workbook are named from the file stem and the sheet name, joined by
  an underscore, when more than one sheet of the workbook is populated, and by the file
  stem alone when exactly one sheet is populated. A sheet is populated when it gives a
  table; the sheet names of a workbook are pairwise distinct.
\<close>

theorem table_names:
  assumes "distinct (map title wb)" and "export_file stem (Some wb) = Inr outs"
  shows "let populated = filter (\<lambda>ws. parse_sheet ws \<noteq> None) wb in
           (1 < length populated \<longrightarrow>
              map out_key outs = map (\<lambda>ws. stem @ ''_'' @ title ws) populated)
           \<and> (length populated = 1 \<longrightarrow> map out_key outs = [stem])"
proof -
  let ?pop = "filter (\<lambda>ws. parse_sheet ws \<noteq> None) wb"
  let ?tables = "map (\<lambda>ws. (title ws, the (parse_sheet ws))) ?pop"
  have res: "fold add_sheet wb [] = ?tables"
    using fold_add_sheet_distinct[OF assms(1), of "[]"] by simp
  show ?thesis
  proof (cases "?pop = []")
    case True
    then show ?thesis by simp
  next
    case False
    then have "parse_excel_file (Some wb) = Some ?tables"
      using res by (simp add: parse_excel_file_Some)
    then have "export_tables stem ?tables ?tables = Inr outs"
      using assms(2) by (simp add: export_file_def)
    from export_tables_keys[OF this]
    have "map out_key outs = map (\<lambda>ws. table_key stem ?tables (title ws)) ?pop"
      by (simp add: comp_def)
    then show ?thesis
      by (auto simp: table_key_def Let_def length_Suc_conv)
  qed
qed

theorem table_names_witness:
  "distinct (map title [actor_sheet, notes_sheet, monster_sheet])
   \<and> \<not> isl (export_file ''Game'' (Some [actor_sheet, notes_sheet, monster_sheet]))
   \<and> map out_key (projr (export_file ''Game'' (Some [actor_sheet, notes_sheet, monster_sheet])))
       = [''Game_Actor'', ''Game_Monster'']
   \<and> \<not> isl (export_file ''Game'' (Some [actor_sheet, notes_sheet]))
   \<and> map out_key (projr (export_file ''Game'' (Some [actor_sheet, notes_sheet]))) = [''Game'']"
proof -
  let ?two = "[actor_sheet, notes_sheet, monster_sheet]"
  let ?one = "[actor_sheet, notes_sheet]"
  have d: "distinct (map title ?two)" "distinct (map title ?one)"
    by code_simp+
  have ok: "\<not> isl (export_file ''Game'' (Some ?two))" "\<not> isl (export_file ''Game'' (Some ?one))"
    by code_simp+
  then have e: "export_file ''Game'' (Some ?two) = Inr (projr (export_file ''Game'' (Some ?two)))"
    "export_file ''Game'' (Some ?one) = Inr (projr (export_file ''Game'' (Some ?one)))"
    by simp_all
  have pop: "filter (\<lambda>ws. parse_sheet ws \<noteq> None) ?two = [actor_sheet, monster_sheet]"
    "filter (\<lambda>ws. parse_sheet ws \<noteq> None) ?one = [actor_sheet]"
    by (simp_all add: actor_sheet_parsed monster_sheet_parsed
        no_rows_no_table[of notes_sheet] header_only_sheet_rows)
  have names: "map (\<lambda>ws. ''Game'' @ ''_'' @ title ws) [actor_sheet, monster_sheet]
      = [''Game_Actor'', ''Game_Monster'']"
    by (simp add: actor_sheet_def monster_sheet_def)
  from table_names[OF d(1) e(1)] pop(1) names
  have "map out_key (projr (export_file ''Game'' (Some ?two))) = [''Game_Actor'', ''Game_Monster'']"
    by (simp add: Let_def)
  moreover from table_names[OF d(2) e(2)] pop(2)
  have "map out_key (projr (export_file ''Game'' (Some ?one))) = [''Game'']"
    by (simp add: Let_def)
  ultimately show ?thesis
    using d(1) ok by simp
qed

text \<open>
  C1, as the claim states it, fails. The claim asks only for a decimal point in some value
  of the column. In \<open>version_table\<close> the first value of the column gives the type integer
  and the text \<^verbatim>\<open>1.2.3\<close> of the second row has a point, but it is no number: the type
  inferred for the column is integer, and the two values are emitted as the integers 1
  and 0.
\<close>

theorem decimal_point_counterexample:
  "first_value ''Level'' (data version_table) = Some (PInt 1)
   \<and> to_csharp_type ''Level'' (PInt 1) = TInt
   \<and> row_get (data version_table ! 1) ''Level'' = PStr ''1.2.3''
   \<and> contains ''.'' (py_str (PStr ''1.2.3''))
   \<and> infer_type ''Level'' (data version_table) = TInt
   \<and> convert_table version_table = Inr [[(''Level'', JInt 1)], [(''Level'', JInt 0)]]"
  by code_simp

text \<open>
  C1, as the code has it. When the first value of a column that is neither \<^verbatim>\<open>None\<close> nor
  blank gives the type integer, and the text of some value of the column parses as a float
  and has a decimal point, the type inferred for the column is float, and every value
  emitted for the column is a float, written in the document as no integer is (150.0, not
  150).
\<close>

theorem decimal_point_promotes:
  assumes "first_value header (data t) = Some v0" and "to_csharp_type header v0 = TInt"
    and "r \<in> set (data t)"
    and "row_get r header \<noteq> PNone"
    and "py_float_of_str (py_str (row_get r header)) \<noteq> None"
    and "contains ''.'' (py_str (row_get r header))"
    and "convert_table t = Inr converted_data" and "i < length (data t)"
    and "supplier (data t ! i) field = Some (header, v)"
    and "header \<in> set (headers t)"
  shows "infer_type header (data t) = TFloat
         \<and> (\<exists>x. map_of (converted_data ! i) field = Some (JFloat x)
                 \<and> (\<forall>n. json_text (JFloat x) \<noteq> json_text (JInt n)))"
proof -
  have "check_float header (data t) = TFloat"
    using assms(3-6) by (auto simp: check_float_iff)
  then have ty: "infer_type header (data t) = TFloat"
    using assms(1,2) by (simp add: infer_type_def infer_from_first_value)
  from emitted_field[OF assms(7-10)] obtain j where
    j: "convert_value TFloat v = Inr j" "map_of (converted_data ! i) field = Some j"
    using ty by auto
  from convert_value_type[OF j(1)] obtain x where "j = JFloat x"
    by (cases j) simp_all
  with ty j(2) float_text_not_int[of x] show ?thesis by simp
qed

theorem decimal_point_promotes_witness:
  "first_value ''MaxHealth'' (data actor_table) = Some (PInt 150)
   \<and> to_csharp_type ''MaxHealth'' (PInt 150) = TInt
   \<and> row_get (data actor_table ! 1) ''MaxHealth'' = PFloat (Finite False 1505 (- 1))
   \<and> py_str (PFloat (Finite False 1505 (- 1))) = ''150.5''
   \<and> py_float_of_str ''150.5'' = Some (Finite False 1505 (- 1))
   \<and> convert_table actor_table = Inr actor_items
   \<and> supplier (data actor_table ! 0) ''Maxhealth'' = Some (''MaxHealth'', PInt 150)
   \<and> infer_type ''MaxHealth'' (data actor_table) = TFloat
   \<and> map_of (actor_items ! 0) ''Maxhealth'' = Some (JFloat (Finite False 150 0))
   \<and> json_text (JFloat (Finite False 150 0)) = ''150.0''"
proof -
  have fv: "first_value ''MaxHealth'' (data actor_table) = Some (PInt 150)"
    and ty: "to_csharp_type ''MaxHealth'' (PInt 150) = TInt"
    and mem: "data actor_table ! 1 \<in> set (data actor_table)"
    and len: "0 < length (data actor_table)"
    and hd: "''MaxHealth'' \<in> set (headers actor_table)"
    by code_simp+
  have cell: "row_get (data actor_table ! 1) ''MaxHealth'' = PFloat (Finite False 1505 (- 1))"
    and str: "py_str (PFloat (Finite False 1505 (- 1))) = ''150.5''"
    and flt: "py_float_of_str ''150.5'' = Some (Finite False 1505 (- 1))"
    and dot: "contains ''.'' ''150.5''"
    and sup: "supplier (data actor_table ! 0) ''Maxhealth'' = Some (''MaxHealth'', PInt 150)"
    and look: "map_of (actor_items ! 0) ''Maxhealth'' = Some (JFloat (Finite False 150 0))"
    and txt150: "json_text (JFloat (Finite False 150 0)) = ''150.0''"
    by code_simp+
  have "infer_type ''MaxHealth'' (data actor_table) = TFloat"
    using decimal_point_promotes[OF fv ty mem _ _ _ actor_table_converted len sup hd]
      cell str flt dot by simp
  then show ?thesis
    using fv ty cell str flt actor_table_converted sup look txt150 by simp
qed

text \<open>
  C6. A value that cannot be converted to the type of its column is replaced by the
  default of the type and the export goes on. The code does so for the errors that its
  \<^verbatim>\<open>except\<close> clauses name, \<^verbatim>\<open>ValueError\<close> and \<^verbatim>\<open>TypeError\<close>, and for no other: in
  \<open>overflow_sheet\<close> the column is a float column and the integer of its last row is beyond
  the range of \<^verbatim>\<open>float\<close>, so \<^verbatim>\<open>float(value)\<close> raises \<^verbatim>\<open>OverflowError\<close> and the export of the
  workbook ends with that error, no document written.
\<close>

theorem overflow_not_caught:
  "export_file ''Stats'' (Some [overflow_sheet]) = Inl OverflowError"
  by (simp add: export_file_def parse_excel_file_Some add_sheet_def overflow_sheet_parsed
      overflow_table_fails)

text \<open>
  C7. In the initialization of the generated manager, the rows of a table with the header
  Id, Name are put in the dictionary under the value of their Id field: each key holds the
  last row whose Id field gives that key, an Id of zero giving none. The rows of a table
  with the header Code, Name all go to the list, and the dictionary stays empty.
\<close>

theorem id_detection:
  assumes "\<forall>obj \<in> set actors. map fst obj = map snd (csharp_fields [''Id'', ''Name''] rows)"
    and "\<forall>obj \<in> set codes. map fst obj = map snd (csharp_fields [''Code'', ''Name''] rows')"
  shows "items_list (load_items try_parse (map Some actors) empty_store) = actors
     \<and> items_dict (load_items try_parse (map Some actors) empty_store) =
         (\<lambda>k. find (\<lambda>obj. id_of_value try_parse (field_value obj ''Id'') = Some k) (rev actors))
     \<and> items_list (load_items try_parse (map Some codes) empty_store) = codes
     \<and> items_dict (load_items try_parse (map Some codes) empty_store) = Map.empty"
proof -
  have a: "GetIdValue try_parse (Some obj) = id_of_value try_parse (field_value obj ''Id'')"
    if "obj \<in> set actors" for obj
    using assms(1) that names_Id by (intro GetIdValue_Id_Name) (simp add: csharp_fields_def comp_def)
  have c: "GetIdValue try_parse (Some obj) = None" if "obj \<in> set codes" for obj
    using assms(2) that names_Code by (intro GetIdValue_Code_Name) (simp add: csharp_fields_def comp_def)
  have fa: "find (\<lambda>obj. GetIdValue try_parse (Some obj) = Some k) (rev actors)
      = find (\<lambda>obj. id_of_value try_parse (field_value obj ''Id'') = Some k) (rev actors)" for k
    by (rule find_cong) (simp_all add: a)
  have fc: "find (\<lambda>obj. GetIdValue try_parse (Some obj) = Some k) (rev codes) = None" for k
    by (simp add: find_None_iff c)
  show ?thesis
    using load_items_Some[of try_parse actors empty_store]
      load_items_Some[of try_parse codes empty_store]
    by (auto simp: fa fc empty_store_def fun_eq_iff split: option.splits)
qed

theorem id_detection_witness:
  "list_all (\<lambda>obj. map fst obj = map snd (csharp_fields [''Id'', ''Name''] (data actor_table)))
     actor_objects
   \<and> list_all (\<lambda>obj. map fst obj = map snd (csharp_fields [''Code'', ''Name''] [])) code_objects
   \<and> items_list (load_items (\<lambda>text. None) (map Some actor_objects) empty_store) = actor_objects
   \<and> items_dict (load_items (\<lambda>text. None) (map Some actor_objects) empty_store) 2
       = Some [(''Id'', CsInt 2), (''Name'', CsOther ''Rookie'')]
   \<and> items_dict (load_items (\<lambda>text. None) (map Some actor_objects) empty_store) 0 = None
   \<and> items_list (load_items (\<lambda>text. None) (map Some code_objects) empty_store) = code_objects
   \<and> items_dict (load_items (\<lambda>text. None) (map Some code_objects) empty_store) = Map.empty"
proof -
  have a: "list_all (\<lambda>obj. map fst obj = map snd (csharp_fields [''Id'', ''Name''] (data actor_table)))
      actor_objects"
    and c: "list_all (\<lambda>obj. map fst obj = map snd (csharp_fields [''Code'', ''Name''] [])) code_objects"
    by code_simp+
  have f2: "find (\<lambda>obj. id_of_value (\<lambda>text. None) (field_value obj ''Id'') = Some 2) (rev actor_objects)
      = Some [(''Id'', CsInt 2), (''Name'', CsOther ''Rookie'')]"
    and f0: "find (\<lambda>obj. id_of_value (\<lambda>text. None) (field_value obj ''Id'') = Some 0) (rev actor_objects)
      = None"
    by (simp_all add: actor_objects_def id_of_value_def field_value_def)
  from id_detection[OF a[unfolded list_all_iff] c[unfolded list_all_iff], of "\<lambda>text. None"] f2 f0
  show ?thesis using a c by simp
qed

end
